theory Spec2Isabelle
  imports Main "HOL-Library.AList"
begin

section \<open>Types of values\<close>

text \<open>
  The pattern of \<^verbatim>\<open>RematerializeParallelOps.cpp\<close> inspects the types of the operands and
  results of a \<^verbatim>\<open>linalg.generic\<close> operation. A dimension of a shaped type is either a
  static extent or the dynamic marker; extents are natural numbers.
\<close>

datatype dim = kDynamic | Static nat

datatype mlir_type =
    IntegerType nat
  | IndexType
  | FloatType nat
  | ComplexType mlir_type
  | NoneType
  | RankedTensorType "dim list" mlir_type
  | UnrankedTensorType mlir_type
  | VectorType "nat list" mlir_type
  | MemRefType "dim list" mlir_type

fun isStatic :: "dim \<Rightarrow> bool" where
  "isStatic kDynamic = False"
| "isStatic (Static n) = True"

definition hasStaticShape :: "dim list \<Rightarrow> bool" where
  "hasStaticShape shape = list_all isStatic shape"

text \<open>
  \<^verbatim>\<open>getNumElements\<close> is only defined on a static shape (the library asserts it); on a
  shape with a dynamic dimension the model has no value.
\<close>

fun getNumElements :: "dim list \<Rightarrow> nat option" where
  "getNumElements [] = Some 1"
| "getNumElements (kDynamic # ds) = None"
| "getNumElements (Static n # ds) = map_option (\<lambda>m. n * m) (getNumElements ds)"

fun isIntOrIndexOrFloat :: "mlir_type \<Rightarrow> bool" where
  "isIntOrIndexOrFloat (IntegerType w) = True"
| "isIntOrIndexOrFloat IndexType = True"
| "isIntOrIndexOrFloat (FloatType w) = True"
| "isIntOrIndexOrFloat t = False"

text \<open>
  \<^verbatim>\<open>isScalarOrTensorOfSizeOne\<close> (lines 24-29): a ranked tensor counts when its shape is
  static and it has one element; every other type counts when it is an integer, an index
  or a float.
\<close>

fun isScalarOrTensorOfSizeOne :: "mlir_type \<Rightarrow> bool" where
  "isScalarOrTensorOfSizeOne (RankedTensorType shape elt) =
     (hasStaticShape shape \<and> getNumElements shape = Some 1)"
| "isScalarOrTensorOfSizeOne t = isIntOrIndexOrFloat t"

text \<open>
  The specification's wording of the same test, kept apart from the code's: a plain
  integer, index or float scalar, or a statically shaped tensor with exactly one element.
\<close>

fun extent :: "dim \<Rightarrow> nat" where
  "extent (Static n) = n"
| "extent kDynamic = 0"

definition spec_effectively_scalar :: "mlir_type \<Rightarrow> bool" where
  "spec_effectively_scalar t =
     (case t of
        IntegerType w \<Rightarrow> True
      | IndexType \<Rightarrow> True
      | FloatType w \<Rightarrow> True
      | RankedTensorType shape elt \<Rightarrow>
          kDynamic \<notin> set shape \<and> prod_list (map extent shape) = 1
      | _ \<Rightarrow> False)"

section \<open>Operations, values and the body of a function\<close>

type_synonym op_id = nat

text \<open>A value is a result of an operation or an argument of the block; it knows its type.\<close>

datatype val = OpResult op_id nat mlir_type | BlockArgument nat mlir_type

fun getType :: "val \<Rightarrow> mlir_type" where
  "getType (OpResult owner n t) = t"
| "getType (BlockArgument n t) = t"

datatype attribute = StringAttr string | IntegerAttr int | ArrayAttr "attribute list"

record operation =
  opName :: string
  operands :: "val list"
  resultTypes :: "mlir_type list"
  attrs :: "(string \<times> attribute) list"

text \<open>The operations of a function body in program order, each under its handle.\<close>

type_synonym region = "(op_id \<times> operation) list"

text \<open>An operand edge: the consuming operation and the operand index.\<close>

type_synonym OpOperand = "op_id \<times> nat"

definition getOp :: "region \<Rightarrow> op_id \<Rightarrow> operation option" where
  "getOp ir c = map_of ir c"

definition getNumResults :: "operation \<Rightarrow> nat" where
  "getNumResults g = length (resultTypes g)"

definition getResults :: "op_id \<Rightarrow> operation \<Rightarrow> val list" where
  "getResults c g = map (\<lambda>(i, t). OpResult c i t) (enumerate 0 (resultTypes g))"

definition getAttr :: "operation \<Rightarrow> string \<Rightarrow> attribute option" where
  "getAttr g name = map_of (attrs g) name"

definition setAttr :: "op_id \<Rightarrow> string \<Rightarrow> attribute \<Rightarrow> region \<Rightarrow> region" where
  "setAttr c name a ir =
     AList.map_entry c (\<lambda>g. g\<lparr>attrs := AList.update name a (attrs g)\<rparr>) ir"

datatype error = InvalidOperation | AssertionFailure

text \<open>\<^verbatim>\<open>ArrayRef::take_back(n)\<close>: the last \<open>n\<close> elements; the library asserts \<open>n \<le> size\<close>.\<close>

definition take_back :: "nat \<Rightarrow> 'a list \<Rightarrow> 'a list option" where
  "take_back n xs = (if n \<le> length xs then Some (drop (length xs - n) xs) else None)"

definition substVal :: "(val \<times> val) list \<Rightarrow> val \<Rightarrow> val" where
  "substVal sub v = (case map_of sub v of Some w \<Rightarrow> w | None \<Rightarrow> v)"

definition replaceAllUsesWith :: "(val \<times> val) list \<Rightarrow> region \<Rightarrow> region" where
  "replaceAllUsesWith sub ir =
     map (\<lambda>(k, g). (k, g\<lparr>operands := map (substVal sub) (operands g)\<rparr>)) ir"

definition eraseOp :: "op_id \<Rightarrow> region \<Rightarrow> region" where
  "eraseOp c ir = AList.delete c ir"

text \<open>
  Modelled from the spec: the rewriter's \<^verbatim>\<open>replaceOp\<close> belongs to the host framework and is
  absent from the sources. Following steps 5 and 6 of the rewrite rule's contract, it
  replaces every use of result \<open>i\<close> of the operation by the \<open>i\<close>-th new value and then
  removes the operation; the host asserts that there is one new value per result.
\<close>

definition replaceOp :: "op_id \<Rightarrow> val list \<Rightarrow> region \<Rightarrow> error + region" where
  "replaceOp c newValues ir =
     (case getOp ir c of
        None \<Rightarrow> Inl InvalidOperation
      | Some g \<Rightarrow>
          if length newValues \<noteq> getNumResults g then Inl AssertionFailure
          else Inr (eraseOp c (replaceAllUsesWith (zip (getResults c g) newValues) ir)))"

section \<open>The rewrite pattern\<close>

datatype LogicalResult = Success | Failure

record ElementwiseOpFusionResult =
  fusedOp :: op_id
  replacements :: "(val \<times> val) list"

text \<open>
  The two functions of the host's linalg library that the pattern calls are parameters of
  the model: the legality test reads the current body; the fusion is handed the rewriter,
  so it returns the body it leaves behind together with its result or failure.
\<close>

type_synonym fusable_fn = "region \<Rightarrow> OpOperand \<Rightarrow> bool"
type_synonym fuse_fn = "OpOperand \<Rightarrow> region \<Rightarrow> ElementwiseOpFusionResult option \<times> region"

definition isScalarValue :: "val \<Rightarrow> bool" where
  "isScalarValue v = isScalarOrTensorOfSizeOne (getType v)"

text \<open>Lines 43-44: every operand and every result is scalar.\<close>

definition allScalar :: "op_id \<Rightarrow> operation \<Rightarrow> bool" where
  "allScalar c g =
     (list_all isScalarValue (operands g) \<and> list_all isScalarValue (getResults c g))"

text \<open>Lines 56-58: the consumer's \<^verbatim>\<open>lowering_config\<close>, when it has one, is set on the fused op.\<close>

definition carryLoweringConfig :: "operation \<Rightarrow> op_id \<Rightarrow> region \<Rightarrow> region" where
  "carryLoweringConfig g fused ir =
     (case getAttr g ''lowering_config'' of
        Some a \<Rightarrow> setAttr fused ''lowering_config'' a ir
      | None \<Rightarrow> ir)"

text \<open>
  Lines 56-62, after a fusion that succeeded: carry the attribute over, take the trailing
  results of the fused op, one per result of the consumer, and replace the consumer by
  them. Both handles are dereferenced, so both operations must still be in the body.
\<close>

definition replaceWithFusedOp ::
  "op_id \<Rightarrow> ElementwiseOpFusionResult \<Rightarrow> region \<Rightarrow> error + (LogicalResult \<times> region)" where
  "replaceWithFusedOp genericOp fusionResult ir =
     (case getOp ir genericOp of
        None \<Rightarrow> Inl InvalidOperation
      | Some g \<Rightarrow>
         (case getOp ir (fusedOp fusionResult) of
            None \<Rightarrow> Inl InvalidOperation
          | Some f \<Rightarrow>
             (case take_back (getNumResults g) (getResults (fusedOp fusionResult) f) of
                None \<Rightarrow> Inl AssertionFailure
              | Some repl \<Rightarrow>
                 (case replaceOp genericOp repl
                         (carryLoweringConfig g (fusedOp fusionResult) ir) of
                    Inl e \<Rightarrow> Inl e
                  | Inr ir' \<Rightarrow> Inr (Success, ir')))))"

text \<open>
  Lines 49-65: the loop over the operand edges of the consumer, given as the list of the
  operand indices still to visit.
\<close>

fun scanOpOperands ::
  "fusable_fn \<Rightarrow> fuse_fn \<Rightarrow> op_id \<Rightarrow> nat list \<Rightarrow> region \<Rightarrow> error + (LogicalResult \<times> region)" where
  "scanOpOperands areElementwiseOpsFusable fuseElementwiseOps genericOp [] ir =
     Inr (Failure, ir)"
| "scanOpOperands areElementwiseOpsFusable fuseElementwiseOps genericOp (i # rest) ir =
     (if \<not> areElementwiseOpsFusable ir (genericOp, i)
      then scanOpOperands areElementwiseOpsFusable fuseElementwiseOps genericOp rest ir
      else
        (case fuseElementwiseOps (genericOp, i) ir of
           (Some fusionResult, ir1) \<Rightarrow> replaceWithFusedOp genericOp fusionResult ir1
         | (None, ir1) \<Rightarrow>
             scanOpOperands areElementwiseOpsFusable fuseElementwiseOps genericOp rest ir1))"

text \<open>
  \<^verbatim>\<open>RematerializeParallelOpsPattern::matchAndRewrite\<close> (lines 37-66). The driver hands
  the pattern the handle of a generic operation of the body; the result is the logical
  result together with the body the rewriter is left with.
\<close>

definition matchAndRewrite ::
  "fusable_fn \<Rightarrow> fuse_fn \<Rightarrow> op_id \<Rightarrow> region \<Rightarrow> error + (LogicalResult \<times> region)" where
  "matchAndRewrite areElementwiseOpsFusable fuseElementwiseOps genericOp ir =
     (case getOp ir genericOp of
        None \<Rightarrow> Inl InvalidOperation
      | Some g \<Rightarrow>
          if allScalar genericOp g then Inr (Failure, ir)
          else scanOpOperands areElementwiseOpsFusable fuseElementwiseOps genericOp
                 [0..<length (operands g)] ir)"

section \<open>The pass\<close>

record func_op =
  funcName :: string
  argTypes :: "mlir_type list"
  body :: region

type_synonym rewrite_pattern = "op_id \<Rightarrow> region \<Rightarrow> error + (LogicalResult \<times> region)"

text \<open>
  The greedy driver of the host is a parameter: given the patterns and the function it
  returns whether it converged and the function it leaves behind.
\<close>

type_synonym greedy_driver = "rewrite_pattern list \<Rightarrow> func_op \<Rightarrow> LogicalResult \<times> func_op"

record pass_result =
  funcAfter :: func_op
  passFailed :: bool

text \<open>
  \<^verbatim>\<open>RematerializeParallelOpsPass::runOnOperation\<close> (lines 74-86). The control function is
  a \<^verbatim>\<open>std::function\<close>, which may be empty (\<open>None\<close>). The patterns that erase unused
  operands and results come from the host and are a parameter.
\<close>

definition runOnOperation ::
  "(func_op \<Rightarrow> bool) option \<Rightarrow> greedy_driver \<Rightarrow> fusable_fn \<Rightarrow> fuse_fn \<Rightarrow>
   rewrite_pattern list \<Rightarrow> func_op \<Rightarrow> pass_result" where
  "runOnOperation controlFn applyPatternsAndFoldGreedily areElementwiseOpsFusable
       fuseElementwiseOps eraseUnusedOperandsAndResultsPatterns funcOp =
     (if (case controlFn of None \<Rightarrow> False | Some p \<Rightarrow> \<not> p funcOp)
      then \<lparr>funcAfter = funcOp, passFailed = False\<rparr>
      else
        (let fusionPatterns =
               matchAndRewrite areElementwiseOpsFusable fuseElementwiseOps
                 # eraseUnusedOperandsAndResultsPatterns
         in case applyPatternsAndFoldGreedily fusionPatterns funcOp of
              (Failure, f') \<Rightarrow> \<lparr>funcAfter = f', passFailed = True\<rparr>
            | (Success, f') \<Rightarrow> \<lparr>funcAfter = f', passFailed = False\<rparr>))"

section \<open>A host instance for concrete runs\<close>

text \<open>
  Modelled from the spec: the host's \<^verbatim>\<open>isElementwiseFusable\<close> (section 6) is absent from
  the sources. An edge is taken as fusable when the consumer and the operation defining
  the operand are both \<^verbatim>\<open>linalg.generic\<close> operations of the body and differ (no
  self-fusion); the spec leaves the index-map compatibility test open.
\<close>

fun definingOp :: "val \<Rightarrow> op_id option" where
  "definingOp (OpResult p k t) = Some p"
| "definingOp (BlockArgument n t) = None"

definition hostFusable :: fusable_fn where
  "hostFusable ir e =
     (case getOp ir (fst e) of
        None \<Rightarrow> False
      | Some g \<Rightarrow>
          snd e < length (operands g) \<and> opName g = ''linalg.generic'' \<and>
          (case definingOp (operands g ! snd e) of
             None \<Rightarrow> False
           | Some p \<Rightarrow>
               p \<noteq> fst e \<and>
               (case getOp ir p of
                  None \<Rightarrow> False
                | Some pg \<Rightarrow> opName pg = ''linalg.generic'')))"

definition freshId :: "region \<Rightarrow> op_id" where
  "freshId ir = Suc (fold max (map fst ir) 0)"

fun insertBefore :: "op_id \<Rightarrow> op_id \<times> operation \<Rightarrow> region \<Rightarrow> region" where
  "insertBefore c e [] = [e]"
| "insertBefore c e (x # xs) = (if fst x = c then e # x # xs else x # insertBefore c e xs)"

definition hasOtherUsers :: "region \<Rightarrow> op_id \<Rightarrow> op_id \<Rightarrow> bool" where
  "hasOtherUsers ir p c =
     list_ex (\<lambda>(k, g). k \<noteq> c \<and> list_ex (\<lambda>v. definingOp v = Some p) (operands g)) ir"

text \<open>
  Modelled from the spec: the host's \<^verbatim>\<open>fuseElementwise\<close> (section 6) is absent from the
  sources. It returns failure without touching the body, or builds one new operation in
  front of the consumer: the consumer's operands with the fused operand replaced by the
  producer's operands, the consumer's results last (preceded by the producer's results
  when the producer has other users), and no attributes, the operation being freshly
  constructed. The edges on which the fusion fails are given by the list \<open>failing\<close>.
\<close>

definition hostFuse :: "OpOperand list \<Rightarrow> fuse_fn" where
  "hostFuse failing e ir =
     (if e \<in> set failing then (None, ir)
      else
        (case getOp ir (fst e) of
           None \<Rightarrow> (None, ir)
         | Some g \<Rightarrow>
             if length (operands g) \<le> snd e then (None, ir)
             else
               (case definingOp (operands g ! snd e) of
                  None \<Rightarrow> (None, ir)
                | Some p \<Rightarrow>
                    (case getOp ir p of
                       None \<Rightarrow> (None, ir)
                     | Some pg \<Rightarrow>
                         (Some \<lparr>fusedOp = freshId ir, replacements = []\<rparr>,
                          insertBefore (fst e)
                            (freshId ir,
                             \<lparr>opName = ''linalg.generic'',
                              operands = take (snd e) (operands g) @ operands pg
                                           @ drop (Suc (snd e)) (operands g),
                              resultTypes =
                                (if hasOtherUsers ir p (fst e) then resultTypes pg else [])
                                  @ resultTypes g,
                              attrs = []\<rparr>)
                            ir)))))"

text \<open>
  Modelled from the spec: the host's greedy driver (section 4.4) is absent from the
  sources. It tries the patterns on the generic operations of the body in program order
  and starts over after each successful rewrite, until a sweep rewrites nothing
  (converged). The iteration budget stands for the host's non-convergence signal: when
  it runs out the driver reports failure, as it does when a pattern raises an error.
\<close>

fun applyFirst :: "rewrite_pattern list \<Rightarrow> op_id \<Rightarrow> region \<Rightarrow> error + region option" where
  "applyFirst [] c ir = Inr None"
| "applyFirst (p # ps) c ir =
     (case p c ir of
        Inl e \<Rightarrow> Inl e
      | Inr (Success, ir') \<Rightarrow> Inr (Some ir')
      | Inr (Failure, ir') \<Rightarrow> applyFirst ps c ir')"

fun sweep :: "rewrite_pattern list \<Rightarrow> op_id list \<Rightarrow> region \<Rightarrow> error + region option" where
  "sweep ps [] ir = Inr None"
| "sweep ps (c # cs) ir =
     (case applyFirst ps c ir of
        Inl e \<Rightarrow> Inl e
      | Inr (Some ir') \<Rightarrow> Inr (Some ir')
      | Inr None \<Rightarrow> sweep ps cs ir)"

definition genericOps :: "region \<Rightarrow> op_id list" where
  "genericOps ir = map fst (filter (\<lambda>(k, g). opName g = ''linalg.generic'') ir)"

fun greedyDriver :: "nat \<Rightarrow> greedy_driver" where
  "greedyDriver 0 ps f = (Failure, f)"
| "greedyDriver (Suc n) ps f =
     (case sweep ps (genericOps (body f)) (body f) of
        Inl e \<Rightarrow> (Failure, f)
      | Inr None \<Rightarrow> (Success, f)
      | Inr (Some ir') \<Rightarrow> greedyDriver n ps (f\<lparr>body := ir'\<rparr>))"

text \<open>
  Concrete bodies. \<open>exampleBody cfgP cfgC\<close> is the spec's first scenario: a square
  feeding an add, each a \<^verbatim>\<open>linalg.generic\<close> with the given attributes, and a return.
\<close>

definition t4 :: mlir_type where
  "t4 = RankedTensorType [Static 4] (FloatType 32)"

definition genericOp1 :: "val list \<Rightarrow> (string \<times> attribute) list \<Rightarrow> operation" where
  "genericOp1 args as =
     \<lparr>opName = ''linalg.generic'', operands = args, resultTypes = [t4], attrs = as\<rparr>"

definition returnOp :: "val list \<Rightarrow> operation" where
  "returnOp args = \<lparr>opName = ''func.return'', operands = args, resultTypes = [], attrs = []\<rparr>"

definition exampleBody ::
  "(string \<times> attribute) list \<Rightarrow> (string \<times> attribute) list \<Rightarrow> region" where
  "exampleBody cfgP cfgC =
     [(0, genericOp1 [BlockArgument 0 t4] cfgP),
      (1, genericOp1 [OpResult 0 0 t4, BlockArgument 1 t4] cfgC),
      (2, returnOp [OpResult 1 0 t4])]"

text \<open>Two producers feeding one consumer.\<close>

definition twoProducers :: region where
  "twoProducers =
     [(0, genericOp1 [BlockArgument 0 t4] []),
      (1, genericOp1 [BlockArgument 1 t4] []),
      (2, genericOp1 [OpResult 0 0 t4, OpResult 1 0 t4] []),
      (3, returnOp [OpResult 2 0 t4])]"

text \<open>A producer with two consumers (the spec's second scenario).\<close>

definition sharedProducer :: region where
  "sharedProducer =
     [(0, genericOp1 [BlockArgument 0 t4] []),
      (1, genericOp1 [OpResult 0 0 t4, BlockArgument 1 t4] []),
      (2, genericOp1 [OpResult 0 0 t4, BlockArgument 2 t4] []),
      (3, returnOp [OpResult 1 0 t4, OpResult 2 0 t4])]"




text \<open>An all-scalar generic op fed by a generic op, and a generic op without operands or results.\<close>

definition scalarBody :: region where
  "scalarBody =
     [(0, \<lparr>opName = ''linalg.generic'', operands = [BlockArgument 0 (FloatType 32)],
           resultTypes = [RankedTensorType [] (FloatType 32)], attrs = []\<rparr>),
      (1, \<lparr>opName = ''linalg.generic'',
           operands = [OpResult 0 0 (RankedTensorType [] (FloatType 32)),
                       BlockArgument 1 (RankedTensorType [Static 1, Static 1] (IntegerType 8)),
                       BlockArgument 2 IndexType],
           resultTypes = [RankedTensorType [Static 1] (FloatType 32)], attrs = []\<rparr>),
      (2, \<lparr>opName = ''linalg.generic'', operands = [], resultTypes = [], attrs = []\<rparr>)]"

definition exampleFunc :: func_op where
  "exampleFunc = \<lparr>funcName = ''f'', argTypes = [t4, t4], body = exampleBody [] []\<rparr>"

text \<open>
  The bodies expected after a rewrite: \<open>exampleBody\<close> with the add fused with the square
  into the new operation 3, and \<open>twoProducers\<close> with the consumer fused with its second
  producer only, into the new operation 4.
\<close>

definition fusedBody ::
  "(string \<times> attribute) list \<Rightarrow> (string \<times> attribute) list \<Rightarrow> region" where
  "fusedBody cfgP cfgF =
     [(0, genericOp1 [BlockArgument 0 t4] cfgP),
      (3, genericOp1 [BlockArgument 0 t4, BlockArgument 1 t4] cfgF),
      (2, returnOp [OpResult 3 0 t4])]"

definition twoProducersFusedAt1 :: region where
  "twoProducersFusedAt1 =
     [(0, genericOp1 [BlockArgument 0 t4] []),
      (1, genericOp1 [BlockArgument 1 t4] []),
      (4, genericOp1 [OpResult 0 0 t4, BlockArgument 1 t4] []),
      (3, returnOp [OpResult 4 0 t4])]"

text \<open>
  \<open>sharedProducer\<close> after the rewrite of consumer 1: the fused operation 4 keeps the
  producer's result in front of the consumer's.
\<close>

definition sharedProducerFused :: region where
  "sharedProducerFused =
     [(0, genericOp1 [BlockArgument 0 t4] []),
      (4, \<lparr>opName = ''linalg.generic'', operands = [BlockArgument 0 t4, BlockArgument 1 t4],
           resultTypes = [t4, t4], attrs = []\<rparr>),
      (2, genericOp1 [OpResult 0 0 t4, BlockArgument 2 t4] []),
      (3, returnOp [OpResult 4 1 t4, OpResult 2 0 t4])]"

text \<open>
  The bodies the host's fusion leaves before the consumer is replaced: the new operation
  stands in front of the consumer, which is still in place. And the operations that read
  a result of a given operation.
\<close>

definition afterFuse ::
  "(string \<times> attribute) list \<Rightarrow> (string \<times> attribute) list \<Rightarrow> region" where
  "afterFuse cfgP cfgC =
     [(0, genericOp1 [BlockArgument 0 t4] cfgP),
      (3, genericOp1 [BlockArgument 0 t4, BlockArgument 1 t4] []),
      (1, genericOp1 [OpResult 0 0 t4, BlockArgument 1 t4] cfgC),
      (2, returnOp [OpResult 1 0 t4])]"

definition sharedProducerAfterFuse :: region where
  "sharedProducerAfterFuse =
     [(0, genericOp1 [BlockArgument 0 t4] []),
      (4, \<lparr>opName = ''linalg.generic'', operands = [BlockArgument 0 t4, BlockArgument 1 t4],
           resultTypes = [t4, t4], attrs = []\<rparr>),
      (1, genericOp1 [OpResult 0 0 t4, BlockArgument 1 t4] []),
      (2, genericOp1 [OpResult 0 0 t4, BlockArgument 2 t4] []),
      (3, returnOp [OpResult 1 0 t4, OpResult 2 0 t4])]"

definition users :: "region \<Rightarrow> op_id \<Rightarrow> op_id list" where
  "users ir p =
     map fst (filter (\<lambda>(k, g). list_ex (\<lambda>v. definingOp v = Some p) (operands g)) ir)"

section \<open>A measure for the fixed point\<close>
















section \<open>Facts about the body operations\<close>

lemma getOp_setAttr:
  "getOp (setAttr f name a ir) k =
     (if k = f then map_option (\<lambda>g. g\<lparr>attrs := AList.update name a (attrs g)\<rparr>) (getOp ir k)
      else getOp ir k)"
  by (simp add: getOp_def setAttr_def map_of_map_entry split: option.splits)

lemma getOp_replaceAllUsesWith:
  "getOp (replaceAllUsesWith sub ir) k =
     map_option (\<lambda>g. g\<lparr>operands := map (substVal sub) (operands g)\<rparr>) (getOp ir k)"
  by (simp add: getOp_def replaceAllUsesWith_def map_of_map)

lemma getOp_eraseOp: "getOp (eraseOp c ir) k = (if k = c then None else getOp ir k)"
  by (simp add: getOp_def eraseOp_def delete_conv)

lemma replaceWithFusedOp_Inr:
  assumes "replaceWithFusedOp c r ir1 = Inr (res, ir')"
  shows "res = Success \<and>
         (\<exists>g f repl. getOp ir1 c = Some g \<and> getOp ir1 (fusedOp r) = Some f \<and>
            take_back (getNumResults g) (getResults (fusedOp r) f) = Some repl \<and>
            replaceOp c repl (carryLoweringConfig g (fusedOp r) ir1) = Inr ir')"
  using assms
  by (auto simp: replaceWithFusedOp_def split: option.splits sum.splits)

lemma scanOpOperands_skip:
  assumes "\<forall>j\<in>set pre. \<not> legal ir (c, j) \<or> fuse (c, j) ir = (None, ir)"
  shows "scanOpOperands legal fuse c (pre @ rest) ir = scanOpOperands legal fuse c rest ir"
  using assms by (induction pre) auto

lemma scanOpOperands_pure:
  assumes pure: "\<And>e s s'. fuse e s = (None, s') \<Longrightarrow> s' = s"
    and run: "scanOpOperands legal fuse c idxs ir = Inr (res, ir')"
  shows "(res = Failure \<longrightarrow> ir' = ir) \<and>
         (res = Success \<longrightarrow>
            (\<exists>i r ir1. i \<in> set idxs \<and> legal ir (c, i) \<and> fuse (c, i) ir = (Some r, ir1) \<and>
               replaceWithFusedOp c r ir1 = Inr (Success, ir')))"
  using run
proof (induction idxs)
  case Nil
  then show ?case by simp
next
  case (Cons i rest)
  show ?case
  proof (cases "legal ir (c, i)")
    case False
    with Cons show ?thesis by auto
  next
    case True
    obtain fr ir1 where f: "fuse (c, i) ir = (fr, ir1)" by (cases "fuse (c, i) ir")
    show ?thesis
    proof (cases fr)
      case None
      with pure f have "ir1 = ir" by blast
      with Cons True f None show ?thesis by auto
    next
      case (Some r)
      with Cons.prems True f have r: "replaceWithFusedOp c r ir1 = Inr (res, ir')" by simp
      from replaceWithFusedOp_Inr [OF r] have "res = Success" by simp
      with r True f Some show ?thesis by auto
    qed
  qed
qed

lemma hasStaticShape_iff: "hasStaticShape shape \<longleftrightarrow> kDynamic \<notin> set shape"
proof (induction shape)
  case Nil
  then show ?case by (simp add: hasStaticShape_def)
next
  case (Cons d ds)
  then show ?case by (cases d) (auto simp: hasStaticShape_def)
qed

lemma getNumElements_static:
  "kDynamic \<notin> set shape \<Longrightarrow> getNumElements shape = Some (prod_list (map extent shape))"
proof (induction shape)
  case Nil
  then show ?case by simp
next
  case (Cons d ds)
  then show ?case by (cases d) auto
qed

lemma isScalar_iff_spec: "isScalarOrTensorOfSizeOne t = spec_effectively_scalar t"
  by (cases t) (auto simp: spec_effectively_scalar_def hasStaticShape_iff getNumElements_static)

lemma getType_getResults: "map getType (getResults c g) = resultTypes g"
  by (simp add: getResults_def enumerate_eq_zip comp_def split_def map_snd_zip_take)

lemma getOp_carryLoweringConfig:
  "getOp (carryLoweringConfig g fused ir) k =
     (if k = fused
      then map_option
             (\<lambda>x. case getAttr g ''lowering_config'' of
                     Some a \<Rightarrow> x\<lparr>attrs := AList.update ''lowering_config'' a (attrs x)\<rparr>
                   | None \<Rightarrow> x)
             (getOp ir k)
      else getOp ir k)"
  by (cases "getOp ir k")
     (auto simp: carryLoweringConfig_def getOp_setAttr split: option.splits)

lemma distinct_getResults: "distinct (getResults c g)"
proof -
  have "inj_on (\<lambda>(i, t). OpResult c i t) (set (enumerate 0 (resultTypes g)))"
    by (auto simp: inj_on_def)
  moreover have "distinct (enumerate 0 (resultTypes g))"
    by (simp add: distinct_enumerate)
  ultimately show ?thesis by (simp add: getResults_def distinct_map)
qed

lemma length_getResults: "length (getResults c g) = getNumResults g"
  by (simp add: getResults_def getNumResults_def)

lemma substVal_zip_nth:
  assumes "distinct xs" and "length xs = length ys" and "j < length xs"
  shows "substVal (zip xs ys) (xs ! j) = ys ! j"
  using assms by (simp add: substVal_def map_of_zip_nth)

lemma substVal_zip_other:
  assumes "v \<notin> set xs"
  shows "substVal (zip xs ys) v = v"
proof -
  have "map_of (zip xs ys) v = None"
    using assms by (metis map_of_eq_None_iff set_zip_leftD surjective_pairing imageE)
  then show ?thesis by (simp add: substVal_def)
qed


lemma scanOpOperands_none_legal:
  assumes "\<forall>i\<in>set idxs. \<not> legal ir (c, i)"
  shows "scanOpOperands legal fuse c idxs ir = Inr (Failure, ir)"
  using assms by (induction idxs) auto

lemma hostFuse_pure: "hostFuse failing e s = (None, s') \<Longrightarrow> s' = s"
  by (auto simp: hostFuse_def split: if_splits option.splits)


lemma upt_split_at:
  assumes "i < n"
  shows "[0..<n] = [0..<i] @ i # [Suc i..<n]"
proof -
  have "[0..<n] = [0..<i] @ [i..<n]"
    using assms upt_add_eq_append [of 0 i "n - i"] by simp
  then show ?thesis using assms by (simp add: upt_conv_Cons)
qed

lemma matchAndRewrite_first_edge:
  assumes "getOp ir c = Some g0" and "\<not> allScalar c g0"
    and "i < length (operands g0)"
    and "\<forall>j<i. \<not> areFusable ir (c, j) \<or> fuse (c, j) ir = (None, ir)"
    and "areFusable ir (c, i)" and "fuse (c, i) ir = (Some r, ir1)"
  shows "matchAndRewrite areFusable fuse c ir = replaceWithFusedOp c r ir1"
proof -
  have skip: "\<forall>j\<in>set [0..<i]. \<not> areFusable ir (c, j) \<or> fuse (c, j) ir = (None, ir)"
    using assms(4) by simp
  have "scanOpOperands areFusable fuse c [0..<length (operands g0)] ir =
          scanOpOperands areFusable fuse c (i # [Suc i..<length (operands g0)]) ir"
    using scanOpOperands_skip
            [where legal = areFusable and fuse = fuse and pre = "[0..<i]" and ir = ir and c = c
               and rest = "i # [Suc i..<length (operands g0)]"]
          skip upt_split_at [OF assms(3)]
    by simp
  also have "\<dots> = replaceWithFusedOp c r ir1"
    using assms(5,6) by simp
  finally show ?thesis using assms(1,2) by (simp add: matchAndRewrite_def)
qed

lemma getOp_carryLoweringConfig_results:
  assumes "getOp ir1 c = Some g"
  shows "\<exists>g'. getOp (carryLoweringConfig h fused ir1) c = Some g' \<and>
              resultTypes g' = resultTypes g \<and> operands g' = operands g \<and>
              opName g' = opName g"
  using assms
  by (cases "getAttr h ''lowering_config''") (auto simp: getOp_carryLoweringConfig)

lemma replaceWithFusedOp_result:
  assumes "getOp ir1 c = Some g" and "getOp ir1 (fusedOp r) = Some f"
  shows "replaceWithFusedOp c r ir1 =
           (if getNumResults g \<le> getNumResults f
            then Inr (Success,
                   eraseOp c
                     (replaceAllUsesWith
                        (zip (getResults c g)
                           (drop (getNumResults f - getNumResults g) (getResults (fusedOp r) f)))
                        (carryLoweringConfig g (fusedOp r) ir1)))
            else Inl AssertionFailure)"
proof -
  from getOp_carryLoweringConfig_results [OF assms(1), of g "fusedOp r"]
  obtain g' where g': "getOp (carryLoweringConfig g (fusedOp r) ir1) c = Some g'"
      "resultTypes g' = resultTypes g" by blast
  have res: "getResults c g' = getResults c g" "getNumResults g' = getNumResults g"
    using g'(2) by (simp_all add: getResults_def getNumResults_def)
  show ?thesis
    using assms g'(1) res
    by (simp add: replaceWithFusedOp_def take_back_def replaceOp_def length_getResults)
qed


lemma getOp_rewritten:
  "getOp (eraseOp c (replaceAllUsesWith sub (carryLoweringConfig g fused ir1))) k =
     (if k = c then None
      else map_option (\<lambda>x. x\<lparr>operands := map (substVal sub) (operands x)\<rparr>)
             (getOp (carryLoweringConfig g fused ir1) k))"
  by (simp add: getOp_eraseOp getOp_replaceAllUsesWith)




text \<open>The definitions a concrete run of the rule unfolds.\<close>

lemmas run_defs =
  matchAndRewrite_def getOp_def allScalar_def isScalarValue_def t4_def hasStaticShape_def
  hostFusable_def hostFuse_def freshId_def hasOtherUsers_def replaceWithFusedOp_def
  take_back_def getResults_def getNumResults_def carryLoweringConfig_def getAttr_def
  replaceOp_def eraseOp_def replaceAllUsesWith_def substVal_def setAttr_def
  enumerate_eq_zip genericOp1_def returnOp_def

text \<open>Two runs of the modelled driver on \<open>exampleFunc\<close>: with budget to converge, and without.\<close>

lemma greedyDriver_converges:
  "greedyDriver 10 [matchAndRewrite hostFusable (hostFuse [])] exampleFunc =
     (Success, exampleFunc\<lparr>body := fusedBody [] []\<rparr>)"
  by code_simp

lemma greedyDriver_out_of_budget:
  "greedyDriver 1 [matchAndRewrite hostFusable (hostFuse [])] exampleFunc =
     (Failure, exampleFunc\<lparr>body := fusedBody [] []\<rparr>)"
  by code_simp

text \<open>The fusion call of the rule on \<open>exampleBody\<close>, consumer 1, edge 0.\<close>

lemma exampleBody_first_edge:
  "getOp (exampleBody cfgP cfgC) 1 = Some (genericOp1 [OpResult 0 0 t4, BlockArgument 1 t4] cfgC) \<and>
   \<not> allScalar 1 (genericOp1 [OpResult 0 0 t4, BlockArgument 1 t4] cfgC) \<and>
   0 < length (operands (genericOp1 [OpResult 0 0 t4, BlockArgument 1 t4] cfgC)) \<and>
   hostFusable (exampleBody cfgP cfgC) (1, 0) \<and>
   hostFuse [] (1, 0) (exampleBody cfgP cfgC) =
     (Some \<lparr>fusedOp = 3, replacements = []\<rparr>, afterFuse cfgP cfgC) \<and>
   getOp (afterFuse cfgP cfgC) 1 = Some (genericOp1 [OpResult 0 0 t4, BlockArgument 1 t4] cfgC) \<and>
   getOp (afterFuse cfgP cfgC) 3 = Some (genericOp1 [BlockArgument 0 t4, BlockArgument 1 t4] [])"
  by (simp add: run_defs exampleBody_def afterFuse_def)

section \<open>The scalar guard\<close>

text \<open>
  Claim C3. When every operand and every result of the candidate has a type that is a
  plain integer, index or float scalar or a statically shaped tensor with exactly one
  element, the rule returns failure and leaves the body as it was, whatever the legality
  test and the fusion of the host would have answered: neither is consulted.
\<close>

theorem scalar_exclusion:
  assumes "getOp ir c = Some g"
    and "\<forall>v\<in>set (operands g). spec_effectively_scalar (getType v)"
    and "\<forall>t\<in>set (resultTypes g). spec_effectively_scalar t"
  shows "matchAndRewrite areFusable fuse c ir = Inr (Failure, ir)"
proof -
  have "list_all isScalarValue (operands g)"
    using assms(2) by (simp add: list_all_iff isScalarValue_def isScalar_iff_spec)
  moreover have "list_all isScalarValue (getResults c g)"
  proof -
    have "\<forall>t\<in>set (map getType (getResults c g)). spec_effectively_scalar t"
      using assms(3) by (simp only: getType_getResults)
    then show ?thesis by (simp add: list_all_iff isScalarValue_def isScalar_iff_spec)
  qed
  ultimately have "allScalar c g" by (simp add: allScalar_def)
  with assms(1) show ?thesis by (simp add: matchAndRewrite_def)
qed

text \<open>
  The all-scalar operation 1 of \<open>scalarBody\<close> is fed by a generic op through an edge
  the host would fuse, and is still rejected.
\<close>

theorem scalar_exclusion_witness:
  "hostFusable scalarBody (1, 0) \<and>
   matchAndRewrite hostFusable (hostFuse []) 1 scalarBody = Inr (Failure, scalarBody)"
proof -
  have g: "getOp scalarBody 1 = Some (snd (scalarBody ! 1))"
    by (simp add: scalarBody_def getOp_def)
  have a: "\<forall>v\<in>set (operands (snd (scalarBody ! 1))). spec_effectively_scalar (getType v)"
    by (simp add: scalarBody_def spec_effectively_scalar_def)
  have b: "\<forall>t\<in>set (resultTypes (snd (scalarBody ! 1))). spec_effectively_scalar t"
    by (simp add: scalarBody_def spec_effectively_scalar_def)
  have "hostFusable scalarBody (1, 0)"
    by (simp add: scalarBody_def hostFusable_def getOp_def)
  with scalar_exclusion [OF g a b, of hostFusable "hostFuse []"] show ?thesis by simp
qed

text \<open>
  Claim C10. A candidate with no operands and no results is all-scalar, both tests of
  the guard holding vacuously, and the rule returns failure on it with the body
  unchanged, for every legality test and fusion.
\<close>

theorem empty_generic_fails:
  assumes "getOp ir c = Some g" and "operands g = []" and "resultTypes g = []"
  shows "allScalar c g \<and> matchAndRewrite areFusable fuse c ir = Inr (Failure, ir)"
  using assms by (simp add: matchAndRewrite_def allScalar_def getResults_def)

theorem empty_generic_fails_witness:
  "allScalar 2 (snd (scalarBody ! 2)) \<and>
   matchAndRewrite hostFusable (hostFuse []) 2 scalarBody = Inr (Failure, scalarBody)"
proof -
  have g: "getOp scalarBody 2 = Some (snd (scalarBody ! 2))"
    by (simp add: scalarBody_def getOp_def)
  have a: "operands (snd (scalarBody ! 2)) = []" by (simp add: scalarBody_def)
  have b: "resultTypes (snd (scalarBody ! 2)) = []" by (simp add: scalarBody_def)
  from empty_generic_fails [OF g a b] show ?thesis by simp
qed

section \<open>Carrying the lowering configuration over\<close>

text \<open>
  Claim C1. Take the rewrite of the consumer \<open>c\<close> on the body \<open>ir\<close>: edge \<open>i\<close> is the first
  operand edge that passes the legality test and on which the fusion succeeds, the
  fusion call returns \<open>r\<close> and leaves the body \<open>ir1\<close>, in which \<open>g\<close> is the consumer and
  \<open>f\<close> the fused operation, distinct from the consumer. The rewrite succeeds as soon as
  the fused operation has as many results as the consumer, and whenever it succeeds the
  fused operation is in the resulting body: if the consumer carries a
  \<^verbatim>\<open>lowering_config\<close> the fused operation carries the same value, and if the consumer
  carries none the attributes of the fused operation are exactly those the fusion gave
  it (nothing is added). By \<open>successful_rewrite_has_first_edge\<close> every successful rewrite
  has this form when a failing fusion call leaves the body alone.
\<close>

theorem lowering_config_carried_over:
  assumes "getOp ir c = Some g0" and "\<not> allScalar c g0"
    and "i < length (operands g0)"
    and "\<forall>j<i. \<not> areFusable ir (c, j) \<or> fuse (c, j) ir = (None, ir)"
    and "areFusable ir (c, i)" and "fuse (c, i) ir = (Some r, ir1)"
    and "getOp ir1 c = Some g" and "getOp ir1 (fusedOp r) = Some f"
    and "fusedOp r \<noteq> c"
  shows "(getNumResults g \<le> getNumResults f \<longrightarrow>
            (\<exists>ir'. matchAndRewrite areFusable fuse c ir = Inr (Success, ir'))) \<and>
         (\<forall>ir'. matchAndRewrite areFusable fuse c ir = Inr (Success, ir') \<longrightarrow>
            (\<exists>f'. getOp ir' (fusedOp r) = Some f' \<and>
               (case getAttr g ''lowering_config'' of
                  Some a \<Rightarrow> getAttr f' ''lowering_config'' = Some a
                | None \<Rightarrow> attrs f' = attrs f)))"
proof -
  have m: "matchAndRewrite areFusable fuse c ir =
           (if getNumResults g \<le> getNumResults f
            then Inr (Success,
                   eraseOp c
                     (replaceAllUsesWith
                        (zip (getResults c g)
                           (drop (getNumResults f - getNumResults g) (getResults (fusedOp r) f)))
                        (carryLoweringConfig g (fusedOp r) ir1)))
            else Inl AssertionFailure)"
    using matchAndRewrite_first_edge
            [where areFusable = areFusable and fuse = fuse, OF assms(1-6)]
          replaceWithFusedOp_result [OF assms(7,8)]
    by simp
  show ?thesis
    using m assms(8,9)
    by (auto simp: getOp_rewritten getOp_carryLoweringConfig getAttr_def update_conv
             split: option.splits if_splits)
qed

text \<open>
  The consumer of \<open>exampleBody\<close> with a configuration, and without one.
\<close>

theorem lowering_config_carried_over_witness:
  "matchAndRewrite hostFusable (hostFuse []) 1
       (exampleBody [] [(''lowering_config'', StringAttr ''tile_B'')]) =
     Inr (Success, fusedBody [] [(''lowering_config'', StringAttr ''tile_B'')]) \<and>
   (\<exists>f'. getOp (fusedBody [] [(''lowering_config'', StringAttr ''tile_B'')]) 3 = Some f' \<and>
      getAttr f' ''lowering_config'' = Some (StringAttr ''tile_B'')) \<and>
   matchAndRewrite hostFusable (hostFuse []) 1 (exampleBody [] []) =
     Inr (Success, fusedBody [] []) \<and>
   (\<exists>f'. getOp (fusedBody [] []) 3 = Some f' \<and> attrs f' = [])"
proof -
  let ?B = "[(''lowering_config'', StringAttr ''tile_B'')]"
  have before: "\<forall>j<0. \<not> hostFusable ir (1, j) \<or> hostFuse [] (1, j) ir = (None, ir)" for ir
    by simp
  have runB: "matchAndRewrite hostFusable (hostFuse []) 1 (exampleBody [] ?B) =
      Inr (Success, fusedBody [] ?B)"
    by (simp add: run_defs exampleBody_def fusedBody_def)
  have run0: "matchAndRewrite hostFusable (hostFuse []) 1 (exampleBody [] []) =
      Inr (Success, fusedBody [] [])"
    by (simp add: run_defs exampleBody_def fusedBody_def)
  note eB = exampleBody_first_edge [of "[]" ?B]
  note e0 = exampleBody_first_edge [of "[]" "[]"]
  have cfgB: "getAttr (genericOp1 [OpResult 0 0 t4, BlockArgument 1 t4] ?B) ''lowering_config'' =
      Some (StringAttr ''tile_B'')"
    by (simp add: getAttr_def genericOp1_def)
  have cfg0: "getAttr (genericOp1 [OpResult 0 0 t4, BlockArgument 1 t4] []) ''lowering_config'' = None"
    by (simp add: getAttr_def genericOp1_def)
  have at0: "attrs (genericOp1 [BlockArgument 0 t4, BlockArgument 1 t4] []) = []"
    by (simp add: genericOp1_def)
  have ne: "fusedOp \<lparr>fusedOp = 3, replacements = []\<rparr> \<noteq> (1::nat)" by simp
  from lowering_config_carried_over
         [where areFusable = hostFusable and fuse = "hostFuse []" and c = 1 and i = 0
            and ir = "exampleBody [] ?B" and ?ir1.0 = "afterFuse [] ?B"
            and r = "\<lparr>fusedOp = 3, replacements = []\<rparr>"
            and ?g0.0 = "genericOp1 [OpResult 0 0 t4, BlockArgument 1 t4] ?B"
            and g = "genericOp1 [OpResult 0 0 t4, BlockArgument 1 t4] ?B"
            and f = "genericOp1 [BlockArgument 0 t4, BlockArgument 1 t4] []"]
       eB before [of "exampleBody [] ?B"] runB cfgB
  have a: "\<exists>f'. getOp (fusedBody [] ?B) 3 = Some f' \<and>
      getAttr f' ''lowering_config'' = Some (StringAttr ''tile_B'')"
    by simp
  from lowering_config_carried_over
         [where areFusable = hostFusable and fuse = "hostFuse []" and c = 1 and i = 0
            and ir = "exampleBody [] []" and ?ir1.0 = "afterFuse [] []"
            and r = "\<lparr>fusedOp = 3, replacements = []\<rparr>"
            and ?g0.0 = "genericOp1 [OpResult 0 0 t4, BlockArgument 1 t4] []"
            and g = "genericOp1 [OpResult 0 0 t4, BlockArgument 1 t4] []"
            and f = "genericOp1 [BlockArgument 0 t4, BlockArgument 1 t4] []"]
       e0 before [of "exampleBody [] []"] run0 cfg0 at0
  have b: "\<exists>f'. getOp (fusedBody [] []) 3 = Some f' \<and> attrs f' = []"
    by simp
  from runB a run0 b show ?thesis by blast
qed


text \<open>
  Claim C2 asks that the producer's \<^verbatim>\<open>lowering_config\<close> reach the fused operation too.
  The rule reads the attribute of the consumer alone. In \<open>exampleBody\<close> with a configured
  square (operation 0) feeding an unconfigured add (operation 1, the only user of the
  square), the rewrite succeeds, the square is left without any user, and the fused
  operation 3 carries no \<^verbatim>\<open>lowering_config\<close>; once the dead square is erased no
  operation of the body carries the value.
\<close>

theorem producer_config_lost_counterexample:
  "matchAndRewrite hostFusable (hostFuse []) 1
       (exampleBody [(''lowering_config'', StringAttr ''tile_A'')] []) =
     Inr (Success, fusedBody [(''lowering_config'', StringAttr ''tile_A'')] []) \<and>
   map_option (\<lambda>p. getAttr p ''lowering_config'')
       (getOp (exampleBody [(''lowering_config'', StringAttr ''tile_A'')] []) 0) =
     Some (Some (StringAttr ''tile_A'')) \<and>
   users (exampleBody [(''lowering_config'', StringAttr ''tile_A'')] []) 0 = [1] \<and>
   users (fusedBody [(''lowering_config'', StringAttr ''tile_A'')] []) 0 = [] \<and>
   map_option (\<lambda>f. getAttr f ''lowering_config'')
       (getOp (fusedBody [(''lowering_config'', StringAttr ''tile_A'')] []) 3) =
     Some None \<and>
   map (\<lambda>(k, g). (k, getAttr g ''lowering_config''))
       (eraseOp 0 (fusedBody [(''lowering_config'', StringAttr ''tile_A'')] [])) =
     [(3, None), (2, None)]"
  by (simp add: run_defs exampleBody_def fusedBody_def users_def)

text \<open>
  Claim C2, as amended: only the consumer's configuration is transferred. For the rewrite
  of \<open>c\<close> at the first edge \<open>i\<close> that is legal and fuses (as in C1), the rewrite succeeds
  as soon as the fused operation has as many results as the consumer, and whenever it
  succeeds the \<^verbatim>\<open>lowering_config\<close> of the fused operation is the consumer's when the
  consumer has one, and otherwise whatever the fusion gave the fused operation; the
  attributes of the producer do not enter.
\<close>

theorem fused_config_from_consumer_only:
  assumes "getOp ir c = Some g0" and "\<not> allScalar c g0"
    and "i < length (operands g0)"
    and "\<forall>j<i. \<not> areFusable ir (c, j) \<or> fuse (c, j) ir = (None, ir)"
    and "areFusable ir (c, i)" and "fuse (c, i) ir = (Some r, ir1)"
    and "getOp ir1 c = Some g" and "getOp ir1 (fusedOp r) = Some f"
    and "fusedOp r \<noteq> c"
  shows "(getNumResults g \<le> getNumResults f \<longrightarrow>
            (\<exists>ir'. matchAndRewrite areFusable fuse c ir = Inr (Success, ir'))) \<and>
         (\<forall>ir'. matchAndRewrite areFusable fuse c ir = Inr (Success, ir') \<longrightarrow>
            map_option (\<lambda>x. getAttr x ''lowering_config'') (getOp ir' (fusedOp r)) =
              Some (case getAttr g ''lowering_config'' of
                      Some a \<Rightarrow> Some a
                    | None \<Rightarrow> getAttr f ''lowering_config''))"
proof -
  have m: "matchAndRewrite areFusable fuse c ir =
           (if getNumResults g \<le> getNumResults f
            then Inr (Success,
                   eraseOp c
                     (replaceAllUsesWith
                        (zip (getResults c g)
                           (drop (getNumResults f - getNumResults g) (getResults (fusedOp r) f)))
                        (carryLoweringConfig g (fusedOp r) ir1)))
            else Inl AssertionFailure)"
    using matchAndRewrite_first_edge
            [where areFusable = areFusable and fuse = fuse, OF assms(1-6)]
          replaceWithFusedOp_result [OF assms(7,8)]
    by simp
  show ?thesis
    using m assms(8,9)
    by (auto simp: getOp_rewritten getOp_carryLoweringConfig getAttr_def update_conv
             split: option.splits if_splits)
qed

text \<open>
  A producer configured with \<open>tile_A\<close>: the fused operation ends with the consumer's
  \<open>tile_B\<close>, or with nothing when the consumer has nothing.
\<close>

theorem fused_config_from_consumer_only_witness:
  "matchAndRewrite hostFusable (hostFuse []) 1
       (exampleBody [(''lowering_config'', StringAttr ''tile_A'')]
                    [(''lowering_config'', StringAttr ''tile_B'')]) =
     Inr (Success, fusedBody [(''lowering_config'', StringAttr ''tile_A'')]
                             [(''lowering_config'', StringAttr ''tile_B'')]) \<and>
   map_option (\<lambda>x. getAttr x ''lowering_config'')
       (getOp (fusedBody [(''lowering_config'', StringAttr ''tile_A'')]
                         [(''lowering_config'', StringAttr ''tile_B'')]) 3) =
     Some (Some (StringAttr ''tile_B'')) \<and>
   map_option (\<lambda>x. getAttr x ''lowering_config'')
       (getOp (fusedBody [(''lowering_config'', StringAttr ''tile_A'')] []) 3) =
     Some None"
proof -
  let ?A = "[(''lowering_config'', StringAttr ''tile_A'')]"
  let ?B = "[(''lowering_config'', StringAttr ''tile_B'')]"
  have before: "\<forall>j<0. \<not> hostFusable ir (1, j) \<or> hostFuse [] (1, j) ir = (None, ir)" for ir
    by simp
  have runB: "matchAndRewrite hostFusable (hostFuse []) 1 (exampleBody ?A ?B) =
      Inr (Success, fusedBody ?A ?B)"
    by (simp add: run_defs exampleBody_def fusedBody_def)
  have run0: "matchAndRewrite hostFusable (hostFuse []) 1 (exampleBody ?A []) =
      Inr (Success, fusedBody ?A [])"
    by (simp add: run_defs exampleBody_def fusedBody_def)
  note eB = exampleBody_first_edge [of ?A ?B]
  note e0 = exampleBody_first_edge [of ?A "[]"]
  have cfgB: "getAttr (genericOp1 [OpResult 0 0 t4, BlockArgument 1 t4] ?B) ''lowering_config'' =
      Some (StringAttr ''tile_B'')"
    by (simp add: getAttr_def genericOp1_def)
  have cfg0: "getAttr (genericOp1 [OpResult 0 0 t4, BlockArgument 1 t4] []) ''lowering_config'' = None"
    by (simp add: getAttr_def genericOp1_def)
  have cfgF: "getAttr (genericOp1 [BlockArgument 0 t4, BlockArgument 1 t4] []) ''lowering_config'' = None"
    by (simp add: getAttr_def genericOp1_def)
  from fused_config_from_consumer_only
         [where areFusable = hostFusable and fuse = "hostFuse []" and c = 1 and i = 0
            and ir = "exampleBody ?A ?B" and ?ir1.0 = "afterFuse ?A ?B"
            and r = "\<lparr>fusedOp = 3, replacements = []\<rparr>"
            and ?g0.0 = "genericOp1 [OpResult 0 0 t4, BlockArgument 1 t4] ?B"
            and g = "genericOp1 [OpResult 0 0 t4, BlockArgument 1 t4] ?B"
            and f = "genericOp1 [BlockArgument 0 t4, BlockArgument 1 t4] []"]
       eB before [of "exampleBody ?A ?B"] runB cfgB
  have a: "map_option (\<lambda>x. getAttr x ''lowering_config'') (getOp (fusedBody ?A ?B) 3) =
      Some (Some (StringAttr ''tile_B''))"
    by simp
  from fused_config_from_consumer_only
         [where areFusable = hostFusable and fuse = "hostFuse []" and c = 1 and i = 0
            and ir = "exampleBody ?A []" and ?ir1.0 = "afterFuse ?A []"
            and r = "\<lparr>fusedOp = 3, replacements = []\<rparr>"
            and ?g0.0 = "genericOp1 [OpResult 0 0 t4, BlockArgument 1 t4] []"
            and g = "genericOp1 [OpResult 0 0 t4, BlockArgument 1 t4] []"
            and f = "genericOp1 [BlockArgument 0 t4, BlockArgument 1 t4] []"]
       e0 before [of "exampleBody ?A []"] run0 cfg0 cfgF
  have b: "map_option (\<lambda>x. getAttr x ''lowering_config'') (getOp (fusedBody ?A []) 3) =
      Some None"
    by simp
  from runB a b show ?thesis by blast
qed

section \<open>The scan over the operand edges\<close>

text \<open>
  Claim C4 places the fusion at the first edge that passes the legality test. The loop
  goes on when the fusion itself fails on such an edge: in \<open>twoProducers\<close> both edges of
  consumer 2 pass the test, the fusion fails on edge 0, and the rule fuses edge 1 (the
  fused operation 4 still reads the result of operation 0).
\<close>

theorem first_legal_edge_counterexample:
  "hostFusable twoProducers (2, 0) \<and>
   hostFuse [(2, 0)] (2, 0) twoProducers = (None, twoProducers) \<and>
   matchAndRewrite hostFusable (hostFuse [(2, 0)]) 2 twoProducers =
     Inr (Success, twoProducersFusedAt1)"
  by (simp add: run_defs twoProducers_def twoProducersFusedAt1_def)

text \<open>
  Claim C4, as amended: the edges are visited in ascending operand index, and the rewrite
  is the one built from the first edge that passes the legality test and on which the
  fusion succeeds; every earlier edge is skipped, because it fails the test or because
  the fusion fails on it (leaving the body as it was).
\<close>

theorem fusion_at_first_fusable_edge:
  assumes "getOp ir c = Some g" and "\<not> allScalar c g"
    and "i < length (operands g)"
    and "\<forall>j<i. \<not> areFusable ir (c, j) \<or> fuse (c, j) ir = (None, ir)"
    and "areFusable ir (c, i)" and "fuse (c, i) ir = (Some r, ir1)"
  shows "matchAndRewrite areFusable fuse c ir = replaceWithFusedOp c r ir1"
proof -
  have split: "[0..<length (operands g)] = [0..<i] @ i # [Suc i..<length (operands g)]"
  proof -
    have "[0..<length (operands g)] = [0..<i] @ [i..<length (operands g)]"
      using assms(3) upt_add_eq_append [of 0 i "length (operands g) - i"] by simp
    then show ?thesis using assms(3) by (simp add: upt_conv_Cons)
  qed
  have skip: "\<forall>j\<in>set [0..<i]. \<not> areFusable ir (c, j) \<or> fuse (c, j) ir = (None, ir)"
    using assms(4) by simp
  have "scanOpOperands areFusable fuse c [0..<length (operands g)] ir =
          scanOpOperands areFusable fuse c (i # [Suc i..<length (operands g)]) ir"
    using scanOpOperands_skip
            [where legal = areFusable and fuse = fuse and pre = "[0..<i]" and ir = ir and c = c
               and rest = "i # [Suc i..<length (operands g)]"]
          skip split
    by simp
  also have "\<dots> = replaceWithFusedOp c r ir1"
    using assms(5,6) by simp
  finally show ?thesis using assms(1,2) by (simp add: matchAndRewrite_def)
qed

theorem fusion_at_first_fusable_edge_witness:
  "matchAndRewrite hostFusable (hostFuse [(2, 0)]) 2 twoProducers =
     replaceWithFusedOp 2 (the (fst (hostFuse [(2, 0)] (2, 1) twoProducers)))
       (snd (hostFuse [(2, 0)] (2, 1) twoProducers)) \<and>
   matchAndRewrite hostFusable (hostFuse [(2, 0)]) 2 twoProducers =
     Inr (Success, twoProducersFusedAt1)"
proof -
  let ?g = "genericOp1 [OpResult 0 0 t4, OpResult 1 0 t4] []"
  have g: "getOp twoProducers 2 = Some ?g" by (simp add: twoProducers_def getOp_def)
  have ns: "\<not> allScalar 2 ?g"
    by (simp add: allScalar_def genericOp1_def isScalarValue_def t4_def hasStaticShape_def)
  have i: "1 < length (operands ?g)" by (simp add: genericOp1_def)
  have before: "\<forall>j<1. \<not> hostFusable twoProducers (2, j) \<or>
                  hostFuse [(2, 0)] (2, j) twoProducers = (None, twoProducers)"
    by (simp add: hostFuse_def)
  have legal: "hostFusable twoProducers (2, 1)"
    by (simp add: hostFusable_def twoProducers_def getOp_def genericOp1_def)
  obtain r ir1 where f: "hostFuse [(2, 0)] (2, 1) twoProducers = (Some r, ir1)"
    by (simp add: hostFuse_def twoProducers_def getOp_def genericOp1_def)
  have res: "matchAndRewrite hostFusable (hostFuse [(2, 0)]) 2 twoProducers =
     Inr (Success, twoProducersFusedAt1)"
    by (simp add: run_defs twoProducers_def twoProducersFusedAt1_def)
  from fusion_at_first_fusable_edge
         [where areFusable = hostFusable and fuse = "hostFuse [(2, 0)]", OF g ns i before legal f]
       f res
  show ?thesis by simp
qed


section \<open>Replacing the consumer\<close>

text \<open>
  Claim C5. Take the rewrite of the consumer \<open>c\<close> on the body \<open>ir\<close> at the first edge \<open>i\<close>
  that is legal and fuses, the fusion call leaving the body \<open>ir1\<close> with the consumer \<open>g\<close>
  (\<open>N\<close> results) and the fused operation \<open>f\<close> (\<open>M\<close> results). The rewrite succeeds as soon
  as \<open>N \<le> M\<close>, and whenever it succeeds the consumer is gone from the resulting body
  and every other operation of \<open>ir1\<close> is still there with as many operands as before:
  an operand that was result \<open>j\<close> of the consumer is now result \<open>M - N + j\<close> of the fused
  operation, the \<open>j\<close>-th of its trailing \<open>N\<close> results, and every other operand is
  unchanged. So the consuming operand slots are the same slots, each reading the
  corresponding trailing result.
\<close>

theorem results_remapped_to_trailing_results:
  assumes "getOp ir c = Some g0" and "\<not> allScalar c g0"
    and "i < length (operands g0)"
    and "\<forall>j<i. \<not> areFusable ir (c, j) \<or> fuse (c, j) ir = (None, ir)"
    and "areFusable ir (c, i)" and "fuse (c, i) ir = (Some r, ir1)"
    and "getOp ir1 c = Some g" and "getOp ir1 (fusedOp r) = Some f"
  shows "(getNumResults g \<le> getNumResults f \<longrightarrow>
            (\<exists>ir'. matchAndRewrite areFusable fuse c ir = Inr (Success, ir'))) \<and>
         (\<forall>ir'. matchAndRewrite areFusable fuse c ir = Inr (Success, ir') \<longrightarrow>
            getNumResults g \<le> getNumResults f \<and>
            getOp ir' c = None \<and>
            (\<forall>k x. k \<noteq> c \<and> getOp ir1 k = Some x \<longrightarrow>
               (\<exists>x'. getOp ir' k = Some x' \<and>
                  length (operands x') = length (operands x) \<and>
                  (\<forall>n<length (operands x).
                     (\<forall>j<getNumResults g.
                        operands x ! n = getResults c g ! j \<longrightarrow>
                        operands x' ! n =
                          getResults (fusedOp r) f ! (getNumResults f - getNumResults g + j)) \<and>
                     (operands x ! n \<notin> set (getResults c g) \<longrightarrow>
                        operands x' ! n = operands x ! n)))))"
proof -
  let ?repl = "drop (getNumResults f - getNumResults g) (getResults (fusedOp r) f)"
  let ?sub = "substVal (zip (getResults c g) ?repl)"
  let ?out = "eraseOp c (replaceAllUsesWith (zip (getResults c g) ?repl)
                (carryLoweringConfig g (fusedOp r) ir1))"
  have m: "matchAndRewrite areFusable fuse c ir =
           (if getNumResults g \<le> getNumResults f then Inr (Success, ?out)
            else Inl AssertionFailure)"
    using matchAndRewrite_first_edge
            [where areFusable = areFusable and fuse = fuse, OF assms(1-6)]
          replaceWithFusedOp_result [OF assms(7,8)]
    by simp
  have remap: "getOp ?out c = None \<and>
            (\<forall>k x. k \<noteq> c \<and> getOp ir1 k = Some x \<longrightarrow>
               (\<exists>x'. getOp ?out k = Some x' \<and>
                  length (operands x') = length (operands x) \<and>
                  (\<forall>n<length (operands x).
                     (\<forall>j<getNumResults g.
                        operands x ! n = getResults c g ! j \<longrightarrow>
                        operands x' ! n =
                          getResults (fusedOp r) f ! (getNumResults f - getNumResults g + j)) \<and>
                     (operands x ! n \<notin> set (getResults c g) \<longrightarrow>
                        operands x' ! n = operands x ! n))))"
    if le: "getNumResults g \<le> getNumResults f"
  proof -
    have len: "length ?repl = getNumResults g" using le by (simp add: length_getResults)
    have hit: "?sub (getResults c g ! j) =
                 getResults (fusedOp r) f ! (getNumResults f - getNumResults g + j)"
      if "j < getNumResults g" for j
      using that le len substVal_zip_nth [OF distinct_getResults, of c g ?repl j]
      by (simp add: length_getResults)
    have miss: "?sub v = v" if "v \<notin> set (getResults c g)" for v
      using that by (rule substVal_zip_other)
    have ops: "\<exists>x'. getOp ?out k = Some x' \<and> operands x' = map ?sub (operands x)"
      if "k \<noteq> c" "getOp ir1 k = Some x" for k x
    proof -
      from getOp_carryLoweringConfig_results [OF that(2), of g "fusedOp r"]
      obtain x2 where "getOp (carryLoweringConfig g (fusedOp r) ir1) k = Some x2"
        "operands x2 = operands x" by blast
      with that(1) show ?thesis by (simp add: getOp_rewritten)
    qed
    have "\<exists>x'. getOp ?out k = Some x' \<and>
                  length (operands x') = length (operands x) \<and>
                  (\<forall>n<length (operands x).
                     (\<forall>j<getNumResults g.
                        operands x ! n = getResults c g ! j \<longrightarrow>
                        operands x' ! n =
                          getResults (fusedOp r) f ! (getNumResults f - getNumResults g + j)) \<and>
                     (operands x ! n \<notin> set (getResults c g) \<longrightarrow>
                        operands x' ! n = operands x ! n))"
      if "k \<noteq> c" "getOp ir1 k = Some x" for k x
    proof -
      from ops [OF that] obtain x' where
        x': "getOp ?out k = Some x'" "operands x' = map ?sub (operands x)" by blast
      show ?thesis using x' hit miss by auto
    qed
    moreover have "getOp ?out c = None" by (simp add: getOp_rewritten)
    ultimately show ?thesis by blast
  qed
  show ?thesis
  proof (cases "getNumResults g \<le> getNumResults f")
    case True
    with m remap [OF True] show ?thesis by simp
  next
    case False
    with m show ?thesis by simp
  qed
qed

text \<open>
  In \<open>sharedProducer\<close> the fused operation 4 has two results; the return, which read
  result 0 of the consumer 1, reads result 1 of operation 4 after the rewrite, and its
  other operand is untouched.
\<close>

theorem results_remapped_to_trailing_results_witness:
  "matchAndRewrite hostFusable (hostFuse []) 1 sharedProducer =
     Inr (Success, sharedProducerFused) \<and>
   map_option operands (getOp sharedProducerAfterFuse 3) =
     Some [OpResult 1 0 t4, OpResult 2 0 t4] \<and>
   getOp sharedProducerFused 1 = None \<and>
   (\<exists>x'. getOp sharedProducerFused 3 = Some x' \<and>
      length (operands x') = 2 \<and>
      operands x' ! 0 = OpResult 4 1 t4 \<and> operands x' ! 1 = OpResult 2 0 t4)"
proof -
  let ?g = "genericOp1 [OpResult 0 0 t4, BlockArgument 1 t4] []"
  let ?f = "\<lparr>opName = ''linalg.generic'',
             operands = [BlockArgument 0 t4, BlockArgument 1 t4],
             resultTypes = [t4, t4], attrs = []\<rparr>"
  let ?ret = "returnOp [OpResult 1 0 t4, OpResult 2 0 t4]"
  have g0: "getOp sharedProducer 1 = Some ?g"
    by (simp add: sharedProducer_def getOp_def)
  have ns: "\<not> allScalar 1 ?g"
    by (simp add: allScalar_def genericOp1_def isScalarValue_def t4_def hasStaticShape_def)
  have i: "0 < length (operands ?g)" by (simp add: genericOp1_def)
  have before: "\<forall>j<0. \<not> hostFusable sharedProducer (1, j) \<or>
      hostFuse [] (1, j) sharedProducer = (None, sharedProducer)"
    by simp
  have legal: "hostFusable sharedProducer (1, 0)"
    by (simp add: hostFusable_def sharedProducer_def getOp_def genericOp1_def)
  have fuse: "hostFuse [] (1, 0) sharedProducer =
      (Some \<lparr>fusedOp = 4, replacements = []\<rparr>, sharedProducerAfterFuse)"
    by (simp add: run_defs sharedProducer_def sharedProducerAfterFuse_def)
  have g: "getOp sharedProducerAfterFuse 1 = Some ?g"
    by (simp add: sharedProducerAfterFuse_def getOp_def)
  have f: "getOp sharedProducerAfterFuse (fusedOp \<lparr>fusedOp = 4, replacements = []\<rparr>) = Some ?f"
    by (simp add: sharedProducerAfterFuse_def getOp_def)
  have ret: "getOp sharedProducerAfterFuse 3 = Some ?ret"
    by (simp add: sharedProducerAfterFuse_def getOp_def)
  have run: "matchAndRewrite hostFusable (hostFuse []) 1 sharedProducer =
      Inr (Success, sharedProducerFused)"
    by (simp add: run_defs sharedProducer_def sharedProducerFused_def)
  note remapped =
    results_remapped_to_trailing_results
      [where areFusable = hostFusable and fuse = "hostFuse []",
       OF g0 ns i before legal fuse g f, THEN conjunct2, THEN spec, THEN mp, OF run]
  from remapped
  have gone: "getOp sharedProducerFused 1 = None"
    and all: "\<forall>k x. k \<noteq> 1 \<and> getOp sharedProducerAfterFuse k = Some x \<longrightarrow>
       (\<exists>x'. getOp sharedProducerFused k = Some x' \<and>
          length (operands x') = length (operands x) \<and>
          (\<forall>n<length (operands x).
             (\<forall>j<getNumResults ?g.
                operands x ! n = getResults 1 ?g ! j \<longrightarrow>
                operands x' ! n =
                  getResults (fusedOp \<lparr>fusedOp = 4, replacements = []\<rparr>) ?f !
                    (getNumResults ?f - getNumResults ?g + j)) \<and>
             (operands x ! n \<notin> set (getResults 1 ?g) \<longrightarrow>
                operands x' ! n = operands x ! n)))"
    by blast+
  have "(3::nat) \<noteq> 1" by simp
  with all ret obtain x' where
    x': "getOp sharedProducerFused 3 = Some x'"
        "length (operands x') = length (operands ?ret)"
        "\<forall>n<length (operands ?ret).
             (\<forall>j<getNumResults ?g.
                operands ?ret ! n = getResults 1 ?g ! j \<longrightarrow>
                operands x' ! n =
                  getResults (fusedOp \<lparr>fusedOp = 4, replacements = []\<rparr>) ?f !
                    (getNumResults ?f - getNumResults ?g + j)) \<and>
             (operands ?ret ! n \<notin> set (getResults 1 ?g) \<longrightarrow>
                operands x' ! n = operands ?ret ! n)"
    by blast
  have n0: "operands x' ! 0 = OpResult 4 1 t4"
    using x'(3) [rule_format, of 0, THEN conjunct1, rule_format, of 0]
    by (simp add: returnOp_def genericOp1_def getResults_def getNumResults_def enumerate_eq_zip)
  have n1: "operands x' ! 1 = OpResult 2 0 t4"
    using x'(3) [rule_format, of 1, THEN conjunct2]
    by (simp add: returnOp_def genericOp1_def getResults_def getNumResults_def enumerate_eq_zip)
  have len: "length (operands x') = 2" using x'(2) by (simp add: returnOp_def)
  have opsBefore: "map_option operands (getOp sharedProducerAfterFuse 3) =
      Some [OpResult 1 0 t4, OpResult 2 0 t4]"
    using ret by (simp add: returnOp_def)
  from run opsBefore gone x'(1) len n0 n1 show ?thesis by blast
qed

section \<open>Failure leaves the body alone\<close>

text \<open>
  Claim C6. When the candidate is all-scalar, or no operand edge passes the legality
  test, the rule returns failure and the body is the one it was given, whatever the
  fusion function is. More generally, as long as a failing fusion call leaves the body
  as it found it, every failing invocation returns the body unchanged, and a succeeding
  invocation is one successful fusion call on the given body followed by exactly one
  \<^verbatim>\<open>replaceOp\<close> of the consumer (after the attribute is carried over).
\<close>

theorem failure_leaves_body_unchanged:
  "(getOp ir c = Some g \<and>
      (allScalar c g \<or> (\<forall>i<length (operands g). \<not> areFusable ir (c, i))) \<longrightarrow>
      matchAndRewrite areFusable fuse c ir = Inr (Failure, ir)) \<and>
   ((\<forall>e s s'. fuse e s = (None, s') \<longrightarrow> s' = s) \<longrightarrow>
      (matchAndRewrite areFusable fuse c ir = Inr (Failure, ir') \<longrightarrow> ir' = ir) \<and>
      (matchAndRewrite areFusable fuse c ir = Inr (Success, ir') \<longrightarrow>
         (\<exists>i r ir1 g f repl.
            areFusable ir (c, i) \<and> fuse (c, i) ir = (Some r, ir1) \<and>
            getOp ir1 c = Some g \<and> getOp ir1 (fusedOp r) = Some f \<and>
            take_back (getNumResults g) (getResults (fusedOp r) f) = Some repl \<and>
            replaceOp c repl (carryLoweringConfig g (fusedOp r) ir1) = Inr ir')))"
proof (intro conjI impI)
  assume a: "getOp ir c = Some g \<and>
      (allScalar c g \<or> (\<forall>i<length (operands g). \<not> areFusable ir (c, i)))"
  show "matchAndRewrite areFusable fuse c ir = Inr (Failure, ir)"
  proof (cases "allScalar c g")
    case True
    with a show ?thesis by (simp add: matchAndRewrite_def)
  next
    case False
    with a have "\<forall>i\<in>set [0..<length (operands g)]. \<not> areFusable ir (c, i)" by simp
    then have "scanOpOperands areFusable fuse c [0..<length (operands g)] ir = Inr (Failure, ir)"
      by (rule scanOpOperands_none_legal [where legal = areFusable and ir = ir and c = c])
    with a False show ?thesis by (simp add: matchAndRewrite_def)
  qed
next
  assume pure: "\<forall>e s s'. fuse e s = (None, s') \<longrightarrow> s' = s"
    and run: "matchAndRewrite areFusable fuse c ir = Inr (Failure, ir')"
  show "ir' = ir"
  proof (cases "getOp ir c")
    case None
    with run show ?thesis by (simp add: matchAndRewrite_def)
  next
    case (Some g)
    show ?thesis
    proof (cases "allScalar c g")
      case True
      with run Some show ?thesis by (simp add: matchAndRewrite_def)
    next
      case False
      with run Some have
        "scanOpOperands areFusable fuse c [0..<length (operands g)] ir = Inr (Failure, ir')"
        by (simp add: matchAndRewrite_def)
      from scanOpOperands_pure [OF _ this] pure show ?thesis by blast
    qed
  qed
next
  assume pure: "\<forall>e s s'. fuse e s = (None, s') \<longrightarrow> s' = s"
    and run: "matchAndRewrite areFusable fuse c ir = Inr (Success, ir')"
  from run obtain idxs where
    "scanOpOperands areFusable fuse c idxs ir = Inr (Success, ir')"
    by (auto simp: matchAndRewrite_def split: option.splits if_splits)
  from scanOpOperands_pure [OF _ this] pure obtain i r ir1 where
    b: "areFusable ir (c, i)" "fuse (c, i) ir = (Some r, ir1)"
       "replaceWithFusedOp c r ir1 = Inr (Success, ir')" by blast
  from replaceWithFusedOp_Inr [OF b(3)] b(1,2)
  show "\<exists>i r ir1 g f repl.
            areFusable ir (c, i) \<and> fuse (c, i) ir = (Some r, ir1) \<and>
            getOp ir1 c = Some g \<and> getOp ir1 (fusedOp r) = Some f \<and>
            take_back (getNumResults g) (getResults (fusedOp r) f) = Some repl \<and>
            replaceOp c repl (carryLoweringConfig g (fusedOp r) ir1) = Inr ir'"
    by blast
qed


theorem failure_leaves_body_unchanged_witness:
  "matchAndRewrite hostFusable (hostFuse []) 0 (exampleBody [] []) =
     Inr (Failure, exampleBody [] []) \<and>
   matchAndRewrite hostFusable (hostFuse [(2, 0), (2, 1)]) 2 twoProducers =
     Inr (Failure, twoProducers) \<and>
   (\<exists>i r ir1 g f repl.
      hostFusable (exampleBody [] []) (1, i) \<and>
      hostFuse [] (1, i) (exampleBody [] []) = (Some r, ir1) \<and>
      getOp ir1 1 = Some g \<and> getOp ir1 (fusedOp r) = Some f \<and>
      take_back (getNumResults g) (getResults (fusedOp r) f) = Some repl \<and>
      replaceOp 1 repl (carryLoweringConfig g (fusedOp r) ir1) = Inr (fusedBody [] []))"
proof -
  have pure: "\<forall>e s s'. hostFuse failing e s = (None, s') \<longrightarrow> s' = s" for failing
    using hostFuse_pure by blast
  have g0: "getOp (exampleBody [] []) 0 = Some (genericOp1 [BlockArgument 0 t4] []) \<and>
      (allScalar 0 (genericOp1 [BlockArgument 0 t4] []) \<or>
       (\<forall>i<length (operands (genericOp1 [BlockArgument 0 t4] [])).
          \<not> hostFusable (exampleBody [] []) (0, i)))"
    by (simp add: exampleBody_def getOp_def genericOp1_def hostFusable_def)
  have one: "matchAndRewrite hostFusable (hostFuse []) 0 (exampleBody [] []) =
      Inr (Failure, exampleBody [] [])"
    using failure_leaves_body_unchanged
            [where areFusable = hostFusable and fuse = "hostFuse []" and c = 0
               and ir = "exampleBody [] []" and g = "genericOp1 [BlockArgument 0 t4] []"]
          g0
    by blast
  have run2: "matchAndRewrite hostFusable (hostFuse [(2, 0), (2, 1)]) 2 twoProducers =
      Inr (Failure, twoProducers)"
    by (simp add: run_defs twoProducers_def)
  have run3: "matchAndRewrite hostFusable (hostFuse []) 1 (exampleBody [] []) =
      Inr (Success, fusedBody [] [])"
    by (simp add: run_defs exampleBody_def fusedBody_def)
  have three: "\<exists>i r ir1 g f repl.
      hostFusable (exampleBody [] []) (1, i) \<and>
      hostFuse [] (1, i) (exampleBody [] []) = (Some r, ir1) \<and>
      getOp ir1 1 = Some g \<and> getOp ir1 (fusedOp r) = Some f \<and>
      take_back (getNumResults g) (getResults (fusedOp r) f) = Some repl \<and>
      replaceOp 1 repl (carryLoweringConfig g (fusedOp r) ir1) = Inr (fusedBody [] [])"
    using failure_leaves_body_unchanged
            [where areFusable = hostFusable and fuse = "hostFuse []" and c = 1
               and ir = "exampleBody [] []" and ir' = "fusedBody [] []"]
          pure [of "[]"] run3
    by blast
  from one run2 three show ?thesis by blast
qed

section \<open>Properties of the pass\<close>

text \<open>
  Claim C7. When a control predicate is supplied and is false on the function, the pass
  returns the function as it was, without failure and whatever the driver is (it is not
  run). When no predicate is supplied the driver is run on the function, with the
  rematerialization pattern first among the patterns, and the pass leaves what the
  driver leaves.
\<close>

theorem control_predicate_gates_pass:
  "(controlFn = Some p \<and> \<not> p f \<longrightarrow>
      runOnOperation controlFn driver areFusable fuse erasePatterns f =
        \<lparr>funcAfter = f, passFailed = False\<rparr>) \<and>
   runOnOperation None driver areFusable fuse erasePatterns f =
     \<lparr>funcAfter = snd (driver (matchAndRewrite areFusable fuse # erasePatterns) f),
      passFailed = (fst (driver (matchAndRewrite areFusable fuse # erasePatterns) f) = Failure)\<rparr>"
  by (auto simp: runOnOperation_def split: prod.splits LogicalResult.splits)


theorem control_predicate_gates_pass_witness:
  "runOnOperation (Some (\<lambda>f. funcName f \<noteq> ''f'')) (greedyDriver 10) hostFusable (hostFuse []) []
       exampleFunc =
     \<lparr>funcAfter = exampleFunc, passFailed = False\<rparr> \<and>
   runOnOperation None (greedyDriver 10) hostFusable (hostFuse []) [] exampleFunc =
     \<lparr>funcAfter = exampleFunc\<lparr>body := fusedBody [] []\<rparr>, passFailed = False\<rparr>"
proof -
  have off: "Some (\<lambda>f. funcName f \<noteq> ''f'') = Some (\<lambda>f. funcName f \<noteq> ''f'') \<and>
      \<not> (\<lambda>f. funcName f \<noteq> ''f'') exampleFunc"
    by (simp add: exampleFunc_def)
  from control_predicate_gates_pass
         [of "Some (\<lambda>f. funcName f \<noteq> ''f'')" "\<lambda>f. funcName f \<noteq> ''f''" exampleFunc
             "greedyDriver 10" hostFusable "hostFuse []" "[]"]
       off greedyDriver_converges
  show ?thesis by simp
qed

text \<open>
  Claim C8. The pass signals failure exactly when it runs the driver (the function is
  not switched off by the control predicate) and the driver reports failure; when it
  runs the driver, it succeeds exactly when the driver reports success, and the function
  is left as the single driver call left it: no retry, no recovery.
\<close>

theorem pass_failure_iff_driver_failure:
  "(passFailed (runOnOperation controlFn driver areFusable fuse erasePatterns f) \<longleftrightarrow>
      (case controlFn of None \<Rightarrow> True | Some p \<Rightarrow> p f) \<and>
      fst (driver (matchAndRewrite areFusable fuse # erasePatterns) f) = Failure) \<and>
   ((case controlFn of None \<Rightarrow> True | Some p \<Rightarrow> p f) \<longrightarrow>
      (\<not> passFailed (runOnOperation controlFn driver areFusable fuse erasePatterns f) \<longleftrightarrow>
         fst (driver (matchAndRewrite areFusable fuse # erasePatterns) f) = Success) \<and>
      funcAfter (runOnOperation controlFn driver areFusable fuse erasePatterns f) =
        snd (driver (matchAndRewrite areFusable fuse # erasePatterns) f))"
  by (cases "driver (matchAndRewrite areFusable fuse # erasePatterns) f";
      cases "fst (driver (matchAndRewrite areFusable fuse # erasePatterns) f)")
     (auto simp: runOnOperation_def split: option.splits)


theorem pass_failure_iff_driver_failure_witness:
  "passFailed (runOnOperation None (greedyDriver 1) hostFusable (hostFuse []) [] exampleFunc) \<and>
   funcAfter (runOnOperation None (greedyDriver 1) hostFusable (hostFuse []) [] exampleFunc) =
     exampleFunc\<lparr>body := fusedBody [] []\<rparr> \<and>
   \<not> passFailed (runOnOperation (Some (\<lambda>f. True)) (greedyDriver 10) hostFusable (hostFuse []) []
                    exampleFunc)"
proof -
  from pass_failure_iff_driver_failure
         [of None "greedyDriver 1" hostFusable "hostFuse []" "[]" exampleFunc]
       greedyDriver_out_of_budget
  have a: "passFailed (runOnOperation None (greedyDriver 1) hostFusable (hostFuse []) [] exampleFunc) \<and>
     funcAfter (runOnOperation None (greedyDriver 1) hostFusable (hostFuse []) [] exampleFunc) =
       exampleFunc\<lparr>body := fusedBody [] []\<rparr>"
    by simp
  from pass_failure_iff_driver_failure
         [of "Some (\<lambda>f. True)" "greedyDriver 10" hostFusable "hostFuse []" "[]" exampleFunc]
       greedyDriver_converges
  have b: "\<not> passFailed (runOnOperation (Some (\<lambda>f. True)) (greedyDriver 10) hostFusable
                           (hostFuse []) [] exampleFunc)"
    by simp
  from a b show ?thesis by blast
qed

section \<open>The weight of a body under the rewrite\<close>














































section \<open>Termination of the fixed point\<close>




end
